theory Spec2Isabelle
  imports Main "HOL-Library.Word"
begin

section \<open>Data model of \<open>src/boilerplate/dispatcher.h\<close>\<close>

text \<open>
  A C pointer is an address or \<open>NULL\<close>: \<open>addr option\<close>, with \<open>None\<close> for
  \<open>NULL\<close>. A function pointer is the address of the code it points to. Objects live in
  a store that maps the addresses of live objects to their values; an address outside the
  store's domain is a dangling pointer.
\<close>

type_synonym addr = nat

type_synonym command_handler_t = nat

type_synonym command_processor_t = nat

text \<open>\<open>struct machine_context_s\<close> (dispatcher.h, lines 29-32).\<close>

record machine_context_t =
  parent_context :: "addr option"
  next_processor :: "command_processor_t option"

text \<open>
  \<open>struct dispatcher_context_s\<close> (lines 38-48). \<open>buffer_t\<close> is declared in
  \<open>common/buffer.h\<close>, which is not part of the sources at hand: it is the type
  parameter \<open>'buf\<close>. The six operations are function pointers; \<open>next\<close> is a
  keyword of the proof language, so the fields carry the suffix \<open>_fn\<close>.
\<close>

record 'buf dispatcher_context_t =
  machine_context_ptr :: "addr option"
  read_buffer :: 'buf
  pause_fn :: "addr option"
  run_fn :: "addr option"
  next_fn :: "addr option"
  send_response_fn :: "addr option"
  send_sw_fn :: "addr option"
  start_flow_fn :: "addr option"

text \<open>\<open>command_descriptor_t\<close> (lines 63-67).\<close>

record command_descriptor_t =
  handler :: command_handler_t
  cla :: "8 word"
  ins :: "8 word"

subsection \<open>Memory and the debug output\<close>

text \<open>
  \<open>PRINTF\<close> comes from \<open>os.h\<close>, which is not at hand. A call is recorded as the
  format string with its arguments, appended to the debug output; it touches nothing else.
  A C \<open>int\<close> argument is a 32-bit word, read as two's complement; a \<open>const char *\<close>
  argument is passed as the string it points to.
\<close>

datatype printf_arg = Arg_str string | Arg_int "32 word"

datatype printf_call = Printf string "printf_arg list"

record 'buf memory =
  contexts :: "addr \<Rightarrow> machine_context_t option"
  dispatchers :: "addr \<Rightarrow> 'buf dispatcher_context_t option"
  debug_out :: "printf_call list"

definition PRINTF :: "string \<Rightarrow> printf_arg list \<Rightarrow> 'buf memory \<Rightarrow> 'buf memory" where
  "PRINTF fmt args m = m\<lparr>debug_out := debug_out m @ [Printf fmt args]\<rparr>"

text \<open>What a run of C code can end in other than a normal return.\<close>

datatype fault = Null_dereference | Dangling_dereference

section \<open>\<open>print_dispatcher_info\<close> (lines 98-105)\<close>

text \<open>
  The loop \<open>while (ctx->parent_context != NULL) { PRINTF("----"); ctx = ctx->parent_context; }\<close>.
  Nothing bounds the number of iterations, so the loop is a partial function: \<open>None\<close>
  is a walk that never ends. The condition dereferences \<open>ctx\<close> unchecked.
\<close>

partial_function (option) print_dispatcher_info_loop ::
  "'buf memory \<Rightarrow> addr option \<Rightarrow> (fault + 'buf memory) option" where
  "print_dispatcher_info_loop m ctx =
     (case ctx of
        None \<Rightarrow> Some (Inl Null_dereference)
      | Some a \<Rightarrow>
          (case contexts m a of
             None \<Rightarrow> Some (Inl Dangling_dereference)
           | Some mc \<Rightarrow>
               (case parent_context mc of
                  None \<Rightarrow> Some (Inr m)
                | Some p \<Rightarrow> print_dispatcher_info_loop (PRINTF ''----'' [] m) (Some p))))"

definition print_dispatcher_info ::
  "'buf memory \<Rightarrow> addr option \<Rightarrow> string \<Rightarrow> 32 word \<Rightarrow> string \<Rightarrow> (fault + 'buf memory) option" where
  "print_dispatcher_info m dc file line func =
     (case dc of
        None \<Rightarrow> Some (Inl Null_dereference)
      | Some d \<Rightarrow>
          (case dispatchers m d of
             None \<Rightarrow> Some (Inl Dangling_dereference)
           | Some dcv \<Rightarrow>
               (case print_dispatcher_info_loop m (machine_context_ptr dcv) of
                  None \<Rightarrow> None
                | Some (Inl f) \<Rightarrow> Some (Inl f)
                | Some (Inr m') \<Rightarrow>
                    Some (Inr (PRINTF ''->%s %d: %s\<newline>'' [Arg_str file, Arg_int line, Arg_str func] m')))))"

section \<open>Parent chains\<close>

text \<open>
  \<open>nth_ancestor h a n\<close> is the context reached from \<open>a\<close> by following
  \<open>parent_context\<close> \<open>n\<close> times in the store \<open>h\<close>; \<open>None\<close> when the walk
  cannot take that many steps (a dangling pointer, or a \<open>NULL\<close> parent, on the way).
\<close>

fun nth_ancestor :: "(addr \<Rightarrow> machine_context_t option) \<Rightarrow> addr \<Rightarrow> nat \<Rightarrow> addr option" where
  "nth_ancestor h a 0 = Some a"
| "nth_ancestor h a (Suc n) =
     (case h a of
        None \<Rightarrow> None
      | Some mc \<Rightarrow> (case parent_context mc of None \<Rightarrow> None | Some p \<Rightarrow> nth_ancestor h p n))"

text \<open>
  \<open>root_after h a n\<close>: the chain from \<open>a\<close> is null-terminated and has exactly
  \<open>n\<close> parent links. Every context on it is live, and the \<open>n\<close>-th ancestor is
  the root, the context whose \<open>parent_context\<close> is \<open>NULL\<close>.
\<close>

fun root_after :: "(addr \<Rightarrow> machine_context_t option) \<Rightarrow> addr \<Rightarrow> nat \<Rightarrow> bool" where
  "root_after h a 0 = (case h a of None \<Rightarrow> False | Some mc \<Rightarrow> parent_context mc = None)"
| "root_after h a (Suc n) =
     (case h a of
        None \<Rightarrow> False
      | Some mc \<Rightarrow> (case parent_context mc of None \<Rightarrow> False | Some p \<Rightarrow> root_after h p n))"

subsection \<open>A concrete memory\<close>

text \<open>
  Contexts 1 (the root) and 2 (its child) form a chain of depth one; contexts 3 and 4
  point at each other. Dispatcher context 10 is at level 2, 11 has a \<open>NULL\<close>
  current context, and 12 is at level 3, on the cycle.
\<close>

definition example_memory :: "unit memory" where
  "example_memory =
     \<lparr>contexts = [1 \<mapsto> \<lparr>parent_context = None, next_processor = Some 7\<rparr>,
                  2 \<mapsto> \<lparr>parent_context = Some 1, next_processor = None\<rparr>,
                  3 \<mapsto> \<lparr>parent_context = Some 4, next_processor = None\<rparr>,
                  4 \<mapsto> \<lparr>parent_context = Some 3, next_processor = None\<rparr>],
      dispatchers = (\<lambda>d. if d = 10 \<or> d = 11 \<or> d = 12 then
         Some \<lparr>machine_context_ptr = (if d = 10 then Some 2 else if d = 11 then None else Some 3),
           read_buffer = (), pause_fn = Some 100, run_fn = Some 101, next_fn = Some 102,
           send_response_fn = Some 103, send_sw_fn = Some 104, start_flow_fn = Some 105\<rparr> else None),
      debug_out = []\<rparr>"

section \<open>The entry point \<open>apdu_dispatcher\<close> (declared at lines 84-89)\<close>

text \<open>
  The header declares \<open>apdu_dispatcher\<close> and the types of its arguments; the body and
  the functions behind the six pointers of the dispatcher context are in files that are
  not among the sources at hand. What follows in this section is therefore not a
  translation of code: it writes down the contract that sections 4.1 and 4.2 of the
  specification give for the entry point, over the types of the header.
\<close>

text \<open>
  Modelled from the spec: \<open>command_t\<close>, the request envelope (\<open>types.h\<close> is not at
  hand). Section 3: class, instruction, parameter-1, parameter-2 (8 bits each) and a
  payload with its explicit length; the header's comment lists the same fields as
  CLA, INS, P1, P2, Lc, command data.
\<close>

record command_t =
  cmd_cla :: "8 word"
  cmd_ins :: "8 word"
  p1 :: "8 word"
  p2 :: "8 word"
  lc :: "8 word"
  data :: "8 word list"

text \<open>
  Modelled from the spec: the status words of section 7 that the entry point itself
  sends, "no such command" for a lookup miss and a distinct failure status for a
  violation of the control contract. The specification fixes no values, so they are
  parameters.
\<close>

record status_words =
  sw_no_such_command :: "16 word"
  sw_contract_violation :: "16 word"

text \<open>
  Modelled from the spec: what the entry point does with one request. It calls a command
  handler with (parameter-1, parameter-2, payload length, dispatcher context), or it calls
  a command processor with a dispatcher context, or it answers the exchange itself with a
  status word and calls nothing.
\<close>

datatype 'buf dispatched =
    Handler_invoked command_handler_t "8 word" "8 word" "8 word" "'buf dispatcher_context_t"
  | Processor_invoked command_processor_t "'buf dispatcher_context_t"
  | Failed "16 word"

text \<open>
  Modelled from the spec: the lookup of section 4.1, a linear scan of the ordered table
  for the first descriptor whose (class, instruction) equals the request's pair. The
  array \<open>cmd_descriptors\<close> with its length \<open>n_descriptors\<close> is a list.
\<close>

fun find_descriptor ::
  "command_descriptor_t list \<Rightarrow> 8 word \<Rightarrow> 8 word \<Rightarrow> command_descriptor_t option" where
  "find_descriptor [] c i = None"
| "find_descriptor (d # ds) c i =
     (if cla d = c \<and> ins d = i then Some d else find_descriptor ds c i)"

text \<open>
  Modelled from the spec: the dispatcher context made afresh for every exchange
  (section 3): the current machine-context pointer, the read cursor over the payload and
  the operations. \<open>ops\<close> carries the six function pointers.
\<close>

definition fresh_context ::
  "'buf dispatcher_context_t \<Rightarrow> addr \<Rightarrow> 'buf \<Rightarrow> 'buf dispatcher_context_t" where
  "fresh_context ops level buf = ops\<lparr>machine_context_ptr := Some level, read_buffer := buf\<rparr>"

text \<open>
  Modelled from the spec: the body of \<open>apdu_dispatcher\<close>, after section 4.2. The
  dispatcher is Idle when the continuation of the root context \<open>top_context\<close> is
  unset; it then looks the command up and calls the matched handler with a dispatcher
  context at the root, and a lookup miss is answered with the "no such command" status.
  Otherwise a flow is active: no matching takes place, and the continuation recorded in
  the current machine context is called with a fresh dispatcher context at that level;
  a current level with no continuation is a violation of the control contract.
  \<open>cursor\<close> is the buffer reader's cursor over a payload and \<open>current\<close> the level
  at which the active flow stands. The store of machine contexts is returned as the
  entry point leaves it. The arguments \<open>top_context_size\<close> and \<open>termination_cb\<close> of
  the declaration play no part in sections 4.1 and 4.2 up to the call and are left out.
\<close>

definition apdu_dispatcher ::
  "status_words \<Rightarrow> 'buf dispatcher_context_t \<Rightarrow> (8 word list \<Rightarrow> 'buf) \<Rightarrow>
   command_descriptor_t list \<Rightarrow> addr \<Rightarrow> addr \<Rightarrow> (addr \<Rightarrow> machine_context_t option) \<Rightarrow>
   command_t \<Rightarrow> fault + 'buf dispatched \<times> (addr \<Rightarrow> machine_context_t option)" where
  "apdu_dispatcher sws ops cursor cmd_descriptors top_context current h cmd =
     (case h top_context of
        None \<Rightarrow> Inl Dangling_dereference
      | Some root \<Rightarrow>
          (case next_processor root of
             None \<Rightarrow>
               (case find_descriptor cmd_descriptors (cmd_cla cmd) (cmd_ins cmd) of
                  Some d \<Rightarrow>
                    Inr (Handler_invoked (handler d) (p1 cmd) (p2 cmd) (lc cmd)
                           (fresh_context ops top_context (cursor (data cmd))), h)
                | None \<Rightarrow> Inr (Failed (sw_no_such_command sws), h))
           | Some _ \<Rightarrow>
               (case h current of
                  None \<Rightarrow> Inl Dangling_dereference
                | Some level \<Rightarrow>
                    (case next_processor level of
                       Some P \<Rightarrow>
                         Inr (Processor_invoked P
                                (fresh_context ops current (cursor (data cmd))), h)
                     | None \<Rightarrow> Inr (Failed (sw_contract_violation sws), h)))))"

subsection \<open>Concrete requests\<close>

text \<open>
  A table in which two descriptors share the pair (0xE1, 0x02); a store whose root has no
  continuation (Idle) and one whose root waits for processor 7 (a flow is active).
\<close>

definition example_ops :: "unit dispatcher_context_t" where
  "example_ops =
     \<lparr>machine_context_ptr = None, read_buffer = (), pause_fn = Some 100, run_fn = Some 101,
      next_fn = Some 102, send_response_fn = Some 103, send_sw_fn = Some 104,
      start_flow_fn = Some 105\<rparr>"

definition example_sws :: status_words where
  "example_sws = \<lparr>sw_no_such_command = 0x6D00, sw_contract_violation = 0x6F00\<rparr>"

definition example_table :: "command_descriptor_t list" where
  "example_table =
     [\<lparr>handler = 201, cla = 0xE1, ins = 0x00\<rparr>,
      \<lparr>handler = 202, cla = 0xE1, ins = 0x02\<rparr>,
      \<lparr>handler = 203, cla = 0xE1, ins = 0x02\<rparr>]"

definition example_cmd :: "8 word \<Rightarrow> 8 word \<Rightarrow> command_t" where
  "example_cmd c i = \<lparr>cmd_cla = c, cmd_ins = i, p1 = 1, p2 = 0, lc = 2, data = [0xAA, 0xBB]\<rparr>"

definition idle_store :: "addr \<Rightarrow> machine_context_t option" where
  "idle_store = [1 \<mapsto> \<lparr>parent_context = None, next_processor = None\<rparr>]"

definition paused_store :: "addr \<Rightarrow> machine_context_t option" where
  "paused_store = [1 \<mapsto> \<lparr>parent_context = None, next_processor = Some 7\<rparr>]"

section \<open>Properties of \<open>print_dispatcher_info\<close>\<close>

subsection \<open>\<open>PRINTF\<close> touches the debug output only\<close>

lemma contexts_PRINTF [simp]: "contexts (PRINTF fmt args m) = contexts m"
  by (simp add: PRINTF_def)

lemma dispatchers_PRINTF [simp]: "dispatchers (PRINTF fmt args m) = dispatchers m"
  by (simp add: PRINTF_def)

subsection \<open>The loop on a null-terminated chain\<close>

lemma loop_returns:
  "root_after (contexts m) a n \<Longrightarrow>
   print_dispatcher_info_loop m (Some a) = Some (Inr (m\<lparr>debug_out := debug_out m @ replicate n (Printf ''----'' [])\<rparr>))"
proof (induction n arbitrary: m a)
  case 0
  then show ?case
    by (subst print_dispatcher_info_loop.simps) (simp split: option.splits)
next
  case (Suc n)
  from Suc.prems obtain mc p where mc: "contexts m a = Some mc" "parent_context mc = Some p"
    and rest: "root_after (contexts m) p n"
    by (auto split: option.splits)
  from rest have "root_after (contexts (PRINTF ''----'' [] m)) p n" by simp
  from Suc.IH [OF this] mc show ?case
    by (subst print_dispatcher_info_loop.simps) (simp add: PRINTF_def)
qed

subsection \<open>What a run of the loop that stops says about the chain\<close>

text \<open>
  By the induction rule of the partial function: a run that returns has walked a
  null-terminated chain, one that faults has reached a pointer it cannot dereference.
\<close>

lemma loop_returns_only:
  "print_dispatcher_info_loop m ctx = Some r \<Longrightarrow>
   (case r of
      Inr m' \<Rightarrow>
        \<exists>a n. ctx = Some a \<and> root_after (contexts m) a n \<and>
          m' = m\<lparr>debug_out := debug_out m @ replicate n (Printf ''----'' [])\<rparr>
    | Inl f \<Rightarrow>
        ctx = None \<or>
        (\<exists>a n c. ctx = Some a \<and> nth_ancestor (contexts m) a n = Some c \<and> contexts m c = None))"
proof (induct rule: print_dispatcher_info_loop.raw_induct [rotated 1, consumes 1, case_names step])
  case (step loop m ctx r)
  show ?case
  proof (cases ctx)
    case None
    with step(2) show ?thesis by auto
  next
    case (Some a)
    show ?thesis
    proof (cases "contexts m a")
      case None
      with step(2) Some have r: "r = Inl Dangling_dereference" by simp
      have "nth_ancestor (contexts m) a 0 = Some a" by simp
      with None have "\<exists>n c. nth_ancestor (contexts m) a n = Some c \<and> contexts m c = None"
        by blast
      with r Some show ?thesis by simp
    next
      case mc: (Some mc)
      show ?thesis
      proof (cases "parent_context mc")
        case None
        with step(2) Some mc have r: "r = Inr m" by simp
        from None mc have "root_after (contexts m) a 0" by simp
        then have "\<exists>n. root_after (contexts m) a n \<and> m = m\<lparr>debug_out := debug_out m @ replicate n (Printf ''----'' [])\<rparr>"
          by (intro exI [of _ 0]) simp
        with r Some show ?thesis by simp
      next
        case p: (Some p)
        with step(2) Some mc have run: "loop (PRINTF ''----'' [] m) (Some p) = Some r" by simp
        note IH = step(1) [OF run]
        show ?thesis
        proof (cases r)
          case (Inr m')
          with IH obtain n where
            n: "root_after (contexts m) p n"
            and m': "m' = (PRINTF ''----'' [] m)\<lparr>debug_out := debug_out (PRINTF ''----'' [] m) @ replicate n (Printf ''----'' [])\<rparr>"
            by auto
          from n mc p have "root_after (contexts m) a (Suc n)" by simp
          moreover from m' have "m' = m\<lparr>debug_out := debug_out m @ replicate (Suc n) (Printf ''----'' [])\<rparr>"
            by (simp add: PRINTF_def)
          ultimately have "\<exists>k. root_after (contexts m) a k \<and>
              m' = m\<lparr>debug_out := debug_out m @ replicate k (Printf ''----'' [])\<rparr>"
            by blast
          with Some Inr show ?thesis by simp
        next
          case (Inl f)
          with IH obtain n c where "nth_ancestor (contexts m) p n = Some c" "contexts m c = None"
            by auto
          with mc p have "nth_ancestor (contexts m) a (Suc n) = Some c" by simp
          with \<open>contexts m c = None\<close> have
            "\<exists>k c. nth_ancestor (contexts m) a k = Some c \<and> contexts m c = None"
            by blast
          with Some Inl show ?thesis by simp
        qed
      qed
    qed
  qed
qed

subsection \<open>Chains that never end\<close>

lemma nth_ancestor_add:
  "nth_ancestor h a (i + j) =
     (case nth_ancestor h a i of None \<Rightarrow> None | Some b \<Rightarrow> nth_ancestor h b j)"
  by (induction i arbitrary: a) (simp_all split: option.splits)

lemma nth_ancestor_None_mono:
  assumes "nth_ancestor h a i = None" and "i \<le> k"
  shows "nth_ancestor h a k = None"
proof -
  from assms(2) obtain j where "k = i + j" by (auto simp: le_iff_add)
  with assms(1) show ?thesis by (simp add: nth_ancestor_add)
qed

lemma nth_ancestor_cycle:
  assumes "nth_ancestor h b k = Some b"
  shows "nth_ancestor h b (j * k) = Some b"
proof (induction j)
  case 0
  show ?case by simp
next
  case (Suc j)
  have "nth_ancestor h b (Suc j * k) = nth_ancestor h b (j * k + k)"
    by (simp add: add.commute)
  also have "\<dots> = Some b"
    using Suc assms by (simp only: nth_ancestor_add option.case)
  finally show ?case .
qed

lemma cycle_never_ends:
  assumes "0 < k" and "nth_ancestor h a i = Some b" and "nth_ancestor h b k = Some b"
  shows "nth_ancestor h a n \<noteq> None"
proof
  assume "nth_ancestor h a n = None"
  moreover have "n \<le> i + n * k" using assms(1) by (cases k) simp_all
  ultimately have "nth_ancestor h a (i + n * k) = None" by (rule nth_ancestor_None_mono)
  moreover have "nth_ancestor h a (i + n * k) = Some b"
    using assms(2) nth_ancestor_cycle [OF assms(3), of n] by (simp only: nth_ancestor_add option.case)
  ultimately show False by simp
qed

lemma root_after_ends: "root_after h a n \<Longrightarrow> nth_ancestor h a (Suc n) = None"
proof (induction n arbitrary: a)
  case 0
  then show ?case by (auto split: option.splits)
next
  case (Suc n)
  from Suc.prems obtain mc p where mc: "h a = Some mc" "parent_context mc = Some p"
    and rest: "root_after h p n"
    by (auto split: option.splits)
  from Suc.IH [OF rest] mc show ?case by simp
qed

lemma root_after_unique: "root_after h a n \<Longrightarrow> root_after h a n' \<Longrightarrow> n = n'"
proof (induction n arbitrary: a n')
  case 0
  then show ?case by (cases n') (auto split: option.splits)
next
  case (Suc n)
  then show ?case by (cases n') (auto split: option.splits)
qed

lemma dangling_ends: "nth_ancestor h a n = Some c \<Longrightarrow> h c = None \<Longrightarrow> nth_ancestor h a (Suc n) = None"
proof -
  assume a: "nth_ancestor h a n = Some c" and c: "h c = None"
  have "nth_ancestor h a (n + 1) = (case nth_ancestor h a n of None \<Rightarrow> None | Some b \<Rightarrow> nth_ancestor h b 1)"
    by (rule nth_ancestor_add)
  with a c show ?thesis by simp
qed

lemma loop_cycle_diverges:
  assumes "0 < k" and "nth_ancestor (contexts m) a i = Some b"
    and "nth_ancestor (contexts m) b k = Some b"
  shows "print_dispatcher_info_loop m (Some a) = None"
proof (cases "print_dispatcher_info_loop m (Some a)")
  case None
  then show ?thesis .
next
  case (Some r)
  note never = cycle_never_ends [OF assms]
  show ?thesis
  proof (cases r)
    case (Inr m')
    with loop_returns_only [OF Some] obtain n where "root_after (contexts m) a n" by auto
    from root_after_ends [OF this] never show ?thesis by blast
  next
    case (Inl f)
    with loop_returns_only [OF Some] obtain n c where
      "nth_ancestor (contexts m) a n = Some c" "contexts m c = None" by auto
    from dangling_ends [OF this] never show ?thesis by blast
  qed
qed

lemma loop_null: "print_dispatcher_info_loop m None = Some (Inl Null_dereference)"
  by (subst print_dispatcher_info_loop.simps) simp

subsection \<open>The whole routine\<close>

lemma info_returns:
  assumes "dispatchers m d = Some dcv" and "machine_context_ptr dcv = Some a"
    and "root_after (contexts m) a n"
  shows "print_dispatcher_info m (Some d) file line func =
    Some (Inr (m\<lparr>debug_out := debug_out m @ replicate n (Printf ''----'' []) @
      [Printf ''->%s %d: %s\<newline>'' [Arg_str file, Arg_int line, Arg_str func]]\<rparr>))"
  using assms loop_returns [OF assms(3)] by (simp add: print_dispatcher_info_def PRINTF_def)

lemma info_returns_only:
  assumes "print_dispatcher_info m dc file line func = Some (Inr m')"
  shows "\<exists>d dcv a n. dc = Some d \<and> dispatchers m d = Some dcv \<and>
    machine_context_ptr dcv = Some a \<and> root_after (contexts m) a n \<and>
    m' = m\<lparr>debug_out := debug_out m @ replicate n (Printf ''----'' []) @
      [Printf ''->%s %d: %s\<newline>'' [Arg_str file, Arg_int line, Arg_str func]]\<rparr>"
proof -
  from assms obtain d dcv m1 where d: "dc = Some d" "dispatchers m d = Some dcv"
    and run: "print_dispatcher_info_loop m (machine_context_ptr dcv) = Some (Inr m1)"
    and m': "m' = PRINTF ''->%s %d: %s\<newline>'' [Arg_str file, Arg_int line, Arg_str func] m1"
    by (auto simp: print_dispatcher_info_def split: option.splits sum.splits)
  from loop_returns_only [OF run] obtain a n where
    "machine_context_ptr dcv = Some a" "root_after (contexts m) a n"
    "m1 = m\<lparr>debug_out := debug_out m @ replicate n (Printf ''----'' [])\<rparr>"
    by auto
  note chain = this
  from chain(3) m' have "m' = m\<lparr>debug_out := debug_out m @ replicate n (Printf ''----'' []) @
      [Printf ''->%s %d: %s\<newline>'' [Arg_str file, Arg_int line, Arg_str func]]\<rparr>"
    by (simp add: PRINTF_def)
  with d chain(1,2) show ?thesis by blast
qed

section \<open>The claims about \<open>print_dispatcher_info\<close>\<close>

text \<open>
  Claim C9. The diagnostic routine \<open>print_dispatcher_info\<close> leaves the dispatcher
  context, every machine-context record and all flow state unchanged; it renders the
  nesting depth, one indentation unit per parent link walked to the root, and a source
  location.

  First part: for a dispatcher context \<open>d\<close> whose current context \<open>a\<close> starts a
  chain of \<open>n\<close> parent links to the root, the routine returns, and the memory it
  returns is the memory it was given with \<open>n\<close> indentation units and the location line
  appended to the debug output: no other component differs. Second part: for any memory
  and any pointer \<open>dc\<close> at all, whenever the routine returns, the machine contexts
  (parent links and pending continuations) and the dispatcher contexts are as before,
  and the debug output has grown by some indentation and the location line.
\<close>

theorem print_dispatcher_info_frame:
  "(dispatchers m d = Some dcv \<and> machine_context_ptr dcv = Some a \<and>
    root_after (contexts m) a n \<longrightarrow>
      print_dispatcher_info m (Some d) file line func =
        Some (Inr (m\<lparr>debug_out := debug_out m @ replicate n (Printf ''----'' []) @
          [Printf ''->%s %d: %s\<newline>'' [Arg_str file, Arg_int line, Arg_str func]]\<rparr>))) \<and>
   (print_dispatcher_info m dc file line func = Some (Inr m1) \<longrightarrow>
      contexts m1 = contexts m \<and> dispatchers m1 = dispatchers m \<and>
      (\<exists>k. debug_out m1 = debug_out m @ replicate k (Printf ''----'' []) @
          [Printf ''->%s %d: %s\<newline>'' [Arg_str file, Arg_int line, Arg_str func]]))"
proof (intro conjI impI)
  assume "dispatchers m d = Some dcv \<and> machine_context_ptr dcv = Some a \<and>
    root_after (contexts m) a n"
  then have "dispatchers m d = Some dcv" and "machine_context_ptr dcv = Some a"
    and "root_after (contexts m) a n"
    by simp_all
  then show "print_dispatcher_info m (Some d) file line func =
        Some (Inr (m\<lparr>debug_out := debug_out m @ replicate n (Printf ''----'' []) @
          [Printf ''->%s %d: %s\<newline>'' [Arg_str file, Arg_int line, Arg_str func]]\<rparr>))"
    by (rule info_returns)
next
  assume "print_dispatcher_info m dc file line func = Some (Inr m1)"
  from info_returns_only [OF this] obtain k where
    m1: "m1 = m\<lparr>debug_out := debug_out m @ replicate k (Printf ''----'' []) @
      [Printf ''->%s %d: %s\<newline>'' [Arg_str file, Arg_int line, Arg_str func]]\<rparr>"
    by blast
  from m1 show "contexts m1 = contexts m" by simp
  from m1 show "dispatchers m1 = dispatchers m" by simp
  from m1 show "\<exists>k. debug_out m1 = debug_out m @ replicate k (Printf ''----'' []) @
          [Printf ''->%s %d: %s\<newline>'' [Arg_str file, Arg_int line, Arg_str func]]"
    by auto
qed

theorem print_dispatcher_info_frame_witness:
  "dispatchers example_memory 10 \<noteq> None \<and>
   root_after (contexts example_memory) 2 (Suc 0) \<and>
   print_dispatcher_info example_memory (Some 10) ''dispatcher.c'' 42 ''handler'' =
     Some (Inr (example_memory\<lparr>debug_out :=
       [Printf ''----'' [],
        Printf ''->%s %d: %s\<newline>'' [Arg_str ''dispatcher.c'', Arg_int 42, Arg_str ''handler'']]\<rparr>))"
  using print_dispatcher_info_frame [of example_memory 10 "the (dispatchers example_memory 10)"
      2 1 "''dispatcher.c''" 42 "''handler''" "Some 10"]
  by (auto simp: example_memory_def)

text \<open>
  Claim C10. \<open>print_dispatcher_info\<close> terminates only under the precondition that
  \<open>dc->machine_context_ptr\<close> is non-null and the \<open>parent_context\<close> chain from it is
  acyclic and null-terminated; under that precondition it terminates after exactly one
  iteration per ancestor link, while a null current context pointer or a cyclic chain
  violates the precondition (unchecked dereference, non-terminating walk).

  The four conjuncts: (1) the routine returns normally exactly when \<open>dc\<close> points to a
  dispatcher context whose current context is non-null and starts a null-terminated
  chain; (2) on such a chain of \<open>n\<close> links it returns after printing the indentation
  unit \<open>n\<close> times, once per iteration of the loop, where \<open>n\<close> is the only length
  the chain has and no context on the chain is its own ancestor; (3) with a \<open>NULL\<close>
  current context the first evaluation of the loop condition dereferences \<open>NULL\<close>;
  (4) when some ancestor \<open>b\<close> of the current context is its own \<open>k\<close>-th ancestor
  for a \<open>k > 0\<close>, the routine does not return.
\<close>

theorem print_dispatcher_info_terminates:
  "((\<exists>m'. print_dispatcher_info m dc file line func = Some (Inr m')) \<longleftrightarrow>
      (\<exists>d dcv a n. dc = Some d \<and> dispatchers m d = Some dcv \<and>
         machine_context_ptr dcv = Some a \<and> root_after (contexts m) a n)) \<and>
   (dispatchers m d = Some dcv \<and> machine_context_ptr dcv = Some a \<and>
    root_after (contexts m) a n \<longrightarrow>
      (\<exists>m'. print_dispatcher_info m (Some d) file line func = Some (Inr m') \<and>
         debug_out m' = debug_out m @ replicate n (Printf ''----'' []) @
           [Printf ''->%s %d: %s\<newline>'' [Arg_str file, Arg_int line, Arg_str func]]) \<and>
      (\<forall>n'. root_after (contexts m) a n' \<longrightarrow> n' = n) \<and>
      (\<forall>j l c. 0 < l \<and> nth_ancestor (contexts m) a j = Some c \<longrightarrow>
         nth_ancestor (contexts m) c l \<noteq> Some c)) \<and>
   (dispatchers m d = Some dcv \<and> machine_context_ptr dcv = None \<longrightarrow>
      print_dispatcher_info m (Some d) file line func = Some (Inl Null_dereference)) \<and>
   (dispatchers m d = Some dcv \<and> machine_context_ptr dcv = Some a \<and> 0 < k \<and>
    nth_ancestor (contexts m) a i = Some b \<and> nth_ancestor (contexts m) b k = Some b \<longrightarrow>
      print_dispatcher_info m (Some d) file line func = None)"
proof (intro conjI impI iffI allI)
  assume "\<exists>m'. print_dispatcher_info m dc file line func = Some (Inr m')"
  then obtain m' where "print_dispatcher_info m dc file line func = Some (Inr m')" ..
  from info_returns_only [OF this]
  show "\<exists>d dcv a n. dc = Some d \<and> dispatchers m d = Some dcv \<and>
         machine_context_ptr dcv = Some a \<and> root_after (contexts m) a n"
    by blast
next
  assume "\<exists>d dcv a n. dc = Some d \<and> dispatchers m d = Some dcv \<and>
         machine_context_ptr dcv = Some a \<and> root_after (contexts m) a n"
  then obtain d dcv a n where "dc = Some d" "dispatchers m d = Some dcv"
    "machine_context_ptr dcv = Some a" "root_after (contexts m) a n"
    by blast
  with info_returns [OF this(2-4), of "file" line func]
  show "\<exists>m'. print_dispatcher_info m dc file line func = Some (Inr m')"
    by simp
next
  assume "dispatchers m d = Some dcv \<and> machine_context_ptr dcv = Some a \<and>
    root_after (contexts m) a n"
  then have "dispatchers m d = Some dcv" and "machine_context_ptr dcv = Some a"
    and "root_after (contexts m) a n"
    by simp_all
  from info_returns [OF this, of "file" line func]
  show "\<exists>m'. print_dispatcher_info m (Some d) file line func = Some (Inr m') \<and>
         debug_out m' = debug_out m @ replicate n (Printf ''----'' []) @
           [Printf ''->%s %d: %s\<newline>'' [Arg_str file, Arg_int line, Arg_str func]]"
    by simp
next
  fix n'
  assume "dispatchers m d = Some dcv \<and> machine_context_ptr dcv = Some a \<and>
    root_after (contexts m) a n" and "root_after (contexts m) a n'"
  then show "n' = n" by (auto dest: root_after_unique)
next
  fix j l :: nat and c
  assume wf: "dispatchers m d = Some dcv \<and> machine_context_ptr dcv = Some a \<and>
    root_after (contexts m) a n"
    and cyc: "0 < l \<and> nth_ancestor (contexts m) a j = Some c"
  show "nth_ancestor (contexts m) c l \<noteq> Some c"
  proof
    assume again: "nth_ancestor (contexts m) c l = Some c"
    from cyc have "0 < l" and "nth_ancestor (contexts m) a j = Some c" by simp_all
    note never = cycle_never_ends [OF this again, of "Suc n"]
    from wf have "root_after (contexts m) a n" by simp
    from root_after_ends [OF this] never show False by blast
  qed
next
  assume "dispatchers m d = Some dcv \<and> machine_context_ptr dcv = None"
  then show "print_dispatcher_info m (Some d) file line func = Some (Inl Null_dereference)"
    by (simp add: print_dispatcher_info_def loop_null)
next
  assume cyc: "dispatchers m d = Some dcv \<and> machine_context_ptr dcv = Some a \<and> 0 < k \<and>
    nth_ancestor (contexts m) a i = Some b \<and> nth_ancestor (contexts m) b k = Some b"
  then have "0 < k" and "nth_ancestor (contexts m) a i = Some b"
    and "nth_ancestor (contexts m) b k = Some b"
    by simp_all
  from loop_cycle_diverges [OF this] cyc
  show "print_dispatcher_info m (Some d) file line func = None"
    by (simp add: print_dispatcher_info_def)
qed

theorem print_dispatcher_info_terminates_witness:
  "root_after (contexts example_memory) 2 (Suc 0) \<and>
   (\<exists>m'. print_dispatcher_info example_memory (Some 10) ''dispatcher.c'' 42 ''handler'' =
      Some (Inr m') \<and>
      debug_out m' = [Printf ''----'' [],
        Printf ''->%s %d: %s\<newline>'' [Arg_str ''dispatcher.c'', Arg_int 42, Arg_str ''handler'']]) \<and>
   print_dispatcher_info example_memory (Some 11) ''dispatcher.c'' 42 ''handler'' =
     Some (Inl Null_dereference) \<and>
   nth_ancestor (contexts example_memory) 3 2 = Some 3 \<and>
   print_dispatcher_info example_memory (Some 12) ''dispatcher.c'' 42 ''handler'' = None"
proof -
  let ?dcv = "\<lambda>d. the (dispatchers example_memory d)"
  have chain: "root_after (contexts example_memory) 2 (Suc 0)"
    by (simp add: example_memory_def)
  have cycle: "nth_ancestor (contexts example_memory) 3 2 = Some 3"
    by (simp add: example_memory_def numeral_2_eq_2)
  have returns: "\<exists>m'. print_dispatcher_info example_memory (Some 10) ''dispatcher.c'' 42 ''handler'' =
      Some (Inr m') \<and>
      debug_out m' = [Printf ''----'' [],
        Printf ''->%s %d: %s\<newline>'' [Arg_str ''dispatcher.c'', Arg_int 42, Arg_str ''handler'']]"
    using chain
      print_dispatcher_info_terminates [of example_memory "Some 10" "''dispatcher.c''" 42
        "''handler''" 10 "?dcv 10" 2 "Suc 0" 1 0 2]
    by (simp add: example_memory_def)
  have null: "print_dispatcher_info example_memory (Some 11) ''dispatcher.c'' 42 ''handler'' =
     Some (Inl Null_dereference)"
    using print_dispatcher_info_terminates [of example_memory "Some 11" "''dispatcher.c''" 42
        "''handler''" 11 "?dcv 11" 2 "Suc 0" 1 0 2]
    by (simp add: example_memory_def)
  have diverges: "print_dispatcher_info example_memory (Some 12) ''dispatcher.c'' 42 ''handler'' = None"
    using cycle
      print_dispatcher_info_terminates [of example_memory "Some 12" "''dispatcher.c''" 42
        "''handler''" 12 "?dcv 12" 3 "Suc 0" 2 0 3]
    by (simp add: example_memory_def)
  from chain returns null cycle diverges show ?thesis by blast
qed

section \<open>Command matching\<close>

subsection \<open>The scan finds the first match\<close>

lemma find_descriptor_first:
  assumes "i < length ds" and "cla (ds ! i) = c \<and> ins (ds ! i) = k"
    and "\<forall>j<i. cla (ds ! j) \<noteq> c \<or> ins (ds ! j) \<noteq> k"
  shows "find_descriptor ds c k = Some (ds ! i)"
  using assms
proof (induction ds arbitrary: i)
  case Nil
  then show ?case by simp
next
  case (Cons d ds)
  show ?case
  proof (cases i)
    case 0
    with Cons.prems show ?thesis by simp
  next
    case (Suc i')
    from Cons.prems(3) Suc have head: "cla d \<noteq> c \<or> ins d \<noteq> k" by auto
    from Cons.prems(3) Suc have "\<forall>j<i'. cla (ds ! j) \<noteq> c \<or> ins (ds ! j) \<noteq> k" by auto
    with Cons.prems(1,2) Suc have "find_descriptor ds c k = Some (ds ! i')"
      by (intro Cons.IH) simp_all
    with head Suc show ?thesis by auto
  qed
qed

lemma find_descriptor_none:
  "(\<forall>d\<in>set ds. cla d \<noteq> c \<or> ins d \<noteq> k) \<Longrightarrow> find_descriptor ds c k = None"
  by (induction ds) auto

section \<open>The claims about command dispatch\<close>

text \<open>
  Claim C1, as amended. When no flow is active (the root context has no continuation),
  the dispatcher calls the handler of the first descriptor of the table whose (class,
  instruction) equals the request's, with (parameter-1, parameter-2, payload length,
  dispatcher context), the context standing at the root; that call is all it does for the
  exchange, so no other handler is called. Here \<open>i\<close> is the index of the first match.
\<close>

theorem dispatch_first_match:
  "h top_context = Some root \<and> next_processor root = None \<and>
   i < length cmd_descriptors \<and>
   cla (cmd_descriptors ! i) = cmd_cla cmd \<and> ins (cmd_descriptors ! i) = cmd_ins cmd \<and>
   (\<forall>j<i. cla (cmd_descriptors ! j) \<noteq> cmd_cla cmd \<or> ins (cmd_descriptors ! j) \<noteq> cmd_ins cmd) \<longrightarrow>
     apdu_dispatcher sws ops cursor cmd_descriptors top_context current h cmd =
       Inr (Handler_invoked (handler (cmd_descriptors ! i)) (p1 cmd) (p2 cmd) (lc cmd)
              (ops\<lparr>machine_context_ptr := Some top_context, read_buffer := cursor (data cmd)\<rparr>),
            h)"
proof
  assume a: "h top_context = Some root \<and> next_processor root = None \<and>
   i < length cmd_descriptors \<and>
   cla (cmd_descriptors ! i) = cmd_cla cmd \<and> ins (cmd_descriptors ! i) = cmd_ins cmd \<and>
   (\<forall>j<i. cla (cmd_descriptors ! j) \<noteq> cmd_cla cmd \<or> ins (cmd_descriptors ! j) \<noteq> cmd_ins cmd)"
  then have "find_descriptor cmd_descriptors (cmd_cla cmd) (cmd_ins cmd) = Some (cmd_descriptors ! i)"
    by (intro find_descriptor_first) simp_all
  with a show "apdu_dispatcher sws ops cursor cmd_descriptors top_context current h cmd =
       Inr (Handler_invoked (handler (cmd_descriptors ! i)) (p1 cmd) (p2 cmd) (lc cmd)
              (ops\<lparr>machine_context_ptr := Some top_context, read_buffer := cursor (data cmd)\<rparr>),
            h)"
    by (simp add: apdu_dispatcher_def fresh_context_def)
qed

theorem dispatch_first_match_witness:
  "apdu_dispatcher example_sws example_ops (\<lambda>_. ()) example_table 1 1 idle_store
     (example_cmd 0xE1 0x02) =
   Inr (Handler_invoked 202 1 0 2 (example_ops\<lparr>machine_context_ptr := Some 1\<rparr>), idle_store)"
  using dispatch_first_match [of idle_store 1 "\<lparr>parent_context = None, next_processor = None\<rparr>"
      1 example_table "example_cmd 0xE1 0x02" example_sws example_ops "\<lambda>_. ()" 1]
  by (simp add: idle_store_def example_table_def example_cmd_def)

text \<open>
  Claim C1 as stated speaks of every incoming request. While a flow is active the
  request (0xE1, 0x02) matches the second descriptor of the table, and yet its handler
  202 is not called: processor 7, the pending continuation, is.
\<close>

theorem dispatch_first_match_counterexample:
  "find_descriptor example_table 0xE1 0x02 = Some \<lparr>handler = 202, cla = 0xE1, ins = 0x02\<rparr> \<and>
   apdu_dispatcher example_sws example_ops (\<lambda>_. ()) example_table 1 1 paused_store
     (example_cmd 0xE1 0x02) =
   Inr (Processor_invoked 7 (example_ops\<lparr>machine_context_ptr := Some 1\<rparr>), paused_store)"
  by (simp add: apdu_dispatcher_def fresh_context_def paused_store_def example_table_def
      example_cmd_def example_ops_def)

text \<open>
  Claim C5, as amended. When no flow is active and no descriptor of the table has the
  request's (class, instruction), the dispatcher calls no handler and no processor, leaves
  the machine contexts as they are and answers the exchange with the "no such command"
  status word.
\<close>

theorem dispatch_unknown_command:
  "h top_context = Some root \<and> next_processor root = None \<and>
   (\<forall>d\<in>set cmd_descriptors. cla d \<noteq> cmd_cla cmd \<or> ins d \<noteq> cmd_ins cmd) \<longrightarrow>
     apdu_dispatcher sws ops cursor cmd_descriptors top_context current h cmd =
       Inr (Failed (sw_no_such_command sws), h)"
  by (simp add: apdu_dispatcher_def find_descriptor_none)

theorem dispatch_unknown_command_witness:
  "apdu_dispatcher example_sws example_ops (\<lambda>_. ()) example_table 1 1 idle_store
     (example_cmd 0xE1 0x09) =
   Inr (Failed 0x6D00, idle_store)"
  using dispatch_unknown_command [of idle_store 1
      "\<lparr>parent_context = None, next_processor = None\<rparr>" example_table "example_cmd 0xE1 0x09"
      example_sws example_ops "\<lambda>_. ()" 1]
  by (simp add: idle_store_def example_table_def example_cmd_def example_sws_def)

text \<open>
  Claim C5 as stated speaks of every request that matches no descriptor. While a flow is
  active such a request is not answered with "no such command": the pending processor 7
  is called, and the answer is its own.
\<close>

theorem dispatch_unknown_command_counterexample:
  "find_descriptor example_table 0xE1 0x09 = None \<and>
   apdu_dispatcher example_sws example_ops (\<lambda>_. ()) example_table 1 1 paused_store
     (example_cmd 0xE1 0x09) =
   Inr (Processor_invoked 7 (example_ops\<lparr>machine_context_ptr := Some 1\<rparr>), paused_store)"
  by (simp add: apdu_dispatcher_def fresh_context_def paused_store_def example_table_def
      example_cmd_def example_ops_def)

end
